theory Spec2Isabelle
  imports Complex_Main
begin

section \<open>DeepFool notebook: data model\<close>

text \<open>
  The notebook \<^verbatim>\<open>deep-fool.ipynb\<close> works on NumPy arrays. An array is a scalar or a
  sequence of sub-arrays along its first axis; iterating an array (\<^verbatim>\<open>for x_input in x0\<close>,
  \<^verbatim>\<open>zip(...)\<close>, \<^verbatim>\<open>len(x0)\<close>) walks that first axis. A multi-field tensor
  (\<^verbatim>\<open>x0\<close>, \<^verbatim>\<open>xi\<close>, a gradient, one perturbation \<^verbatim>\<open>ri\<close>) is the list of its
  fields. The notebook's own call passes \<^verbatim>\<open>np.expand_dims(X_fold[i], axis=0)\<close>, of
  shape \<open>(1, T, F)\<close>: one field with \<open>T\<close> rows of \<open>F\<close> numbers.

  The fields of one tensor have one shape, so that \<^verbatim>\<open>np.array\<close> and
  \<^verbatim>\<open>tf.convert_to_tensor\<close> stack them into one array.

  Floating-point numbers are modelled as reals: rounding, infinities and NaN are outside
  the model.
\<close>

datatype ndarray = Scalar real | Array "ndarray list"

type_synonym tensor = "ndarray list"

datatype error = IndexError | InvalidArgumentError | OSError | PickleError

text \<open>\<^verbatim>\<open>a.ravel()\<close>: the entries of an array in row-major order.\<close>

fun flatten :: "ndarray \<Rightarrow> real list" where
  "flatten (Scalar a) = [a]"
| "flatten (Array xs) = concat (map flatten xs)"

text \<open>\<^verbatim>\<open>a.shape\<close>, read along the first sub-array of every axis.\<close>

fun nd_shape :: "ndarray \<Rightarrow> nat list" where
  "nd_shape (Scalar a) = []"
| "nd_shape (Array xs) = length xs # (case xs of [] \<Rightarrow> [] | x # _ \<Rightarrow> nd_shape x)"

text \<open>\<^verbatim>\<open>np.zeros(a.shape)\<close>.\<close>

fun zeros_like :: "ndarray \<Rightarrow> ndarray" where
  "zeros_like (Scalar a) = Scalar 0"
| "zeros_like (Array xs) = Array (map zeros_like xs)"

text \<open>\<^verbatim>\<open>c * a\<close> for a scalar \<open>c\<close>.\<close>

fun nd_scale :: "real \<Rightarrow> ndarray \<Rightarrow> ndarray" where
  "nd_scale c (Scalar a) = Scalar (c * a)"
| "nd_scale c (Array xs) = Array (map (nd_scale c) xs)"

text \<open>
  An element-wise binary operation \<^verbatim>\<open>a - b\<close>, \<^verbatim>\<open>a + b\<close>. A scalar operand is
  broadcast over the other one. The two arrays of every such operation in \<^verbatim>\<open>deepfool\<close>
  have the same shape whenever the gradient has the shape of the input, as the result of
  \<^verbatim>\<open>tape.gradient(results_k, x)\<close> has (\<open>grad_shaped\<close> below).
\<close>

function nd_zip :: "(real \<Rightarrow> real \<Rightarrow> real) \<Rightarrow> ndarray \<Rightarrow> ndarray \<Rightarrow> ndarray" where
  "nd_zip f (Scalar a) (Scalar b) = Scalar (f a b)"
| "nd_zip f (Scalar a) (Array ys) = Array (map (nd_zip f (Scalar a)) ys)"
| "nd_zip f (Array xs) (Scalar b) = Array (map (\<lambda>x. nd_zip f x (Scalar b)) xs)"
| "nd_zip f (Array xs) (Array ys) = Array (map (\<lambda>(x, y). nd_zip f x y) (zip xs ys))"
  by pat_completeness auto
termination
proof (relation "measure (\<lambda>(f, a, b). size a + size b)")
  fix f :: "real \<Rightarrow> real \<Rightarrow> real" and xs ys :: "ndarray list" and z x y
  assume "z \<in> set (zip xs ys)" and "(x, y) = z"
  then have "x \<in> set xs" and "y \<in> set ys"
    by (auto dest: set_zip_leftD set_zip_rightD)
  then have "size x < Suc (size_list size xs)" and "size y < Suc (size_list size ys)"
    by (auto simp: less_Suc_eq_le size_list_estimation')
  then show "((f, x, y), (f, Array xs, Array ys)) \<in> measure (\<lambda>(f, a, b). size a + size b)"
    by simp
qed (auto simp: less_Suc_eq_le size_list_estimation')

text \<open>\<^verbatim>\<open>a[0]\<close>: the first sub-array; a scalar or an empty array has none.\<close>

fun index0 :: "ndarray \<Rightarrow> error + ndarray" where
  "index0 (Scalar a) = Inl IndexError"
| "index0 (Array []) = Inl IndexError"
| "index0 (Array (x # xs)) = Inr x"

text \<open>\<^verbatim>\<open>np.linalg.norm(a)\<close> with the default order: the 2-norm of \<^verbatim>\<open>a.ravel()\<close>.\<close>

definition linalg_norm :: "ndarray \<Rightarrow> real" where
  "linalg_norm a = sqrt (\<Sum>v\<leftarrow>flatten a. v\<^sup>2)"

text \<open>
  \<^verbatim>\<open>np.sum([np.linalg.norm(w)**2 for w in ws])\<close> and its square root, as they are
  written in \<^verbatim>\<open>example_robustness\<close> and in lines 179 and 185 of \<^verbatim>\<open>deepfool\<close>.
\<close>

definition squared_norm :: "tensor \<Rightarrow> real" where
  "squared_norm ws = (\<Sum>w\<leftarrow>ws. (linalg_norm w)\<^sup>2)"

definition joint_norm :: "tensor \<Rightarrow> real" where
  "joint_norm ws = sqrt (squared_norm ws)"

subsection \<open>The classifier\<close>

text \<open>
  The Keras model is an oracle: \<open>num_classes\<close> is the width of its output,
  \<open>score m x k\<close> the \<open>k\<close>-th output for the single batch element \<open>x\<close>, and
  \<open>gradient m x k\<close> what \<^verbatim>\<open>tape.gradient(results[0, k], x)\<close> returns.
\<close>

record model =
  num_classes :: nat
  score :: "tensor \<Rightarrow> nat \<Rightarrow> real"
  gradient :: "tensor \<Rightarrow> nat \<Rightarrow> tensor"

text \<open>\<^verbatim>\<open>model.predict(x).flatten()\<close> and \<^verbatim>\<open>model(x)[0, :]\<close>: the score vector.\<close>

definition predict :: "model \<Rightarrow> tensor \<Rightarrow> real list" where
  "predict m x = map (score m x) [0..<num_classes m]"

text \<open>
  \<^verbatim>\<open>get_gradient(model, x, k)\<close>. \<^verbatim>\<open>results[0, k]\<close> is a TensorFlow slice: an index
  beyond the output width raises \<^verbatim>\<open>InvalidArgumentError\<close>.
\<close>

definition get_gradient :: "model \<Rightarrow> tensor \<Rightarrow> nat \<Rightarrow> error + (tensor \<times> real list)" where
  "get_gradient m x k =
     (if k < num_classes m then Inr (gradient m x k, predict m x)
      else Inl InvalidArgumentError)"

subsection \<open>Labels\<close>

text \<open>
  \<^verbatim>\<open>f.argsort()\<close> is NumPy's: the source calls it with the default kind, which
  NumPy documents as not stable, and which sort runs depends on the build and on the
  processor. It is a parameter of the model, a function from the score vector to a list of
  indices. What every kind of \<^verbatim>\<open>argsort\<close> gives is \<open>argsort_ok\<close>: the indices of the
  vector, each once, in ascending order of their scores. The order of equal scores is left
  open.
\<close>

type_synonym argsort = "real list \<Rightarrow> nat list"

definition argsort_ok :: "argsort \<Rightarrow> bool" where
  "argsort_ok argsort \<longleftrightarrow>
     (\<forall>f. distinct (argsort f) \<and> set (argsort f) = {0..<length f}
          \<and> sorted (map (\<lambda>i. f ! i) (argsort f)))"

text \<open>\<^verbatim>\<open>f.argsort()[::-1][0]\<close>; indexing an empty result raises \<^verbatim>\<open>IndexError\<close>.\<close>

definition top_label :: "argsort \<Rightarrow> real list \<Rightarrow> error + nat" where
  "top_label argsort f = (case rev (argsort f) of [] \<Rightarrow> Inl IndexError | i # _ \<Rightarrow> Inr i)"

subsection \<open>Robustness of one example\<close>

text \<open>
  \<^verbatim>\<open>r_norm / x_norm\<close> divides NumPy floats: a zero divisor gives \<^verbatim>\<open>inf\<close> or
  \<^verbatim>\<open>nan\<close> with a warning, no real number, which is \<open>None\<close> here.
\<close>

definition np_divide :: "real \<Rightarrow> real \<Rightarrow> real option" where
  "np_divide a b = (if b = 0 then None else Some (a / b))"

definition example_robustness :: "tensor \<Rightarrow> tensor \<Rightarrow> real option" where
  "example_robustness x r =
     (let r_norm = sqrt (\<Sum>r_input\<leftarrow>r. (linalg_norm r_input)\<^sup>2);
          x_norm = sqrt (\<Sum>x_input\<leftarrow>x. (linalg_norm x_input)\<^sup>2)
      in np_divide r_norm x_norm)"

section \<open>The per-class scan\<close>

text \<open>
  Line 181: \<^verbatim>\<open>fk_wk = np.linalg.norm(f_k) / (w_k_norm + 1e-3)\<close>, with the divisor
  named. \<open>w_k_norm\<close> of line 179 is \<open>joint_norm w_k\<close>, and the norm of the scalar
  \<open>f_k\<close> is its absolute value.
\<close>

definition distance_divisor :: "tensor \<Rightarrow> real" where
  "distance_divisor w_k = joint_norm w_k + 1 / 1000"

definition distance :: "real \<Rightarrow> tensor \<Rightarrow> real" where
  "distance f_k w_k = \<bar>f_k\<bar> / distance_divisor w_k"

text \<open>
  Lines 185 to 187: \<^verbatim>\<open>ri_const = f_l_norm / (w_l_squared_norm + 1e-3)\<close>, where
  \<open>w_l_squared_norm\<close> is \<open>squared_norm w_l\<close> and \<open>f_l_norm\<close> the absolute value of
  \<open>f_l\<close>.
\<close>

definition step_divisor :: "tensor \<Rightarrow> real" where
  "step_divisor w_l = squared_norm w_l + 1 / 1000"

definition step_scale :: "real \<Rightarrow> tensor \<Rightarrow> real" where
  "step_scale f_l w_l = \<bar>f_l\<bar> / step_divisor w_l"

text \<open>
  \<^verbatim>\<open>fk_wk < fk_wk_min\<close>, where \<^verbatim>\<open>fk_wk_min\<close> starts as \<^verbatim>\<open>np.inf\<close>: \<open>None\<close>
  is infinity.
\<close>

fun less_bound :: "real \<Rightarrow> real option \<Rightarrow> bool" where
  "less_bound a None = True"
| "less_bound a (Some b) = (a < b)"

text \<open>
  Lines 177 to 183, the body of the \<^verbatim>\<open>for\<close> loop for one class \<open>k\<close> other than
  \<open>label_x0\<close>, on the loop's variables \<open>(w_l, f_l)\<close>. The body assigns \<open>w_l\<close> and
  \<open>f_l\<close> only: \<open>fk_wk_min\<close> is read and never written.
\<close>

definition visit ::
  "model \<Rightarrow> tensor \<Rightarrow> nat \<Rightarrow> tensor \<Rightarrow> real option \<Rightarrow> nat \<Rightarrow> tensor \<times> real
     \<Rightarrow> error + (tensor \<times> real)" where
  "visit m xi label_x0 grad_f_label_x0_on_xi fk_wk_min k wl_fl =
     (case get_gradient m xi k of
        Inl e \<Rightarrow> Inl e
      | Inr (grad_f_k_on_xi, f_xi) \<Rightarrow>
          (let w_k = map (\<lambda>(g_f_k, g_f_label). nd_zip (-) g_f_k g_f_label)
                       (zip grad_f_k_on_xi grad_f_label_x0_on_xi);
               f_k = f_xi ! k - f_xi ! label_x0;
               fk_wk = distance f_k w_k
           in if less_bound fk_wk fk_wk_min then Inr (w_k, f_k) else Inr wl_fl))"

text \<open>Lines 174 to 183: the \<^verbatim>\<open>for\<close> loop over a list of classes, with its \<^verbatim>\<open>continue\<close>.\<close>

fun scan_classes ::
  "model \<Rightarrow> tensor \<Rightarrow> nat \<Rightarrow> tensor \<Rightarrow> real option \<Rightarrow> nat list \<Rightarrow> tensor \<times> real
     \<Rightarrow> error + (tensor \<times> real)" where
  "scan_classes m xi label_x0 g fk_wk_min [] wl_fl = Inr wl_fl"
| "scan_classes m xi label_x0 g fk_wk_min (k # ks) wl_fl =
     (if k = label_x0 then scan_classes m xi label_x0 g fk_wk_min ks wl_fl
      else case visit m xi label_x0 g fk_wk_min k wl_fl of
             Inl e \<Rightarrow> Inl e
           | Inr wl_fl' \<Rightarrow> scan_classes m xi label_x0 g fk_wk_min ks wl_fl')"

text \<open>
  Lines 169 to 183: the initial \<open>w_l\<close>, \<open>f_l\<close> and \<open>fk_wk_min\<close>, and the loop over
  \<^verbatim>\<open>range(10)\<close>.
\<close>

definition class_scan :: "model \<Rightarrow> tensor \<Rightarrow> tensor \<Rightarrow> nat \<Rightarrow> tensor \<Rightarrow> error + (tensor \<times> real)" where
  "class_scan m x0 xi label_x0 grad_f_label_x0_on_xi =
     scan_classes m xi label_x0 grad_f_label_x0_on_xi None [0..<10] (map zeros_like x0, 0)"

section \<open>The main loop\<close>

text \<open>
  Lines 169 to 192, one pass of the \<^verbatim>\<open>while\<close> body up to the new \<open>xi\<close>: the result
  is the perturbation \<open>ri\<close> appended to \<open>r\<close> and the new candidate.
\<close>

definition iteration :: "model \<Rightarrow> tensor \<Rightarrow> nat \<Rightarrow> real \<Rightarrow> tensor \<Rightarrow> error + (tensor \<times> tensor)" where
  "iteration m x0 label_x0 eta xi =
     (case get_gradient m xi label_x0 of
        Inl e \<Rightarrow> Inl e
      | Inr (grad_f_label_x0_on_xi, f_xi) \<Rightarrow>
          (case class_scan m x0 xi label_x0 grad_f_label_x0_on_xi of
             Inl e \<Rightarrow> Inl e
           | Inr (w_l, f_l) \<Rightarrow>
               (let ri_const = step_scale f_l w_l;
                    ri = map (nd_scale ri_const) w_l;
                    xi_new = map (\<lambda>(xi_item, ri_item).
                                    nd_zip (+) xi_item (nd_scale (1 + eta) ri_item))
                               (zip xi ri)
                in Inr (ri, xi_new))))"

text \<open>
  Lines 168 to 196: the \<^verbatim>\<open>while\<close> loop on \<open>(loop_i, xi, label_xi, r)\<close>. It returns
  the final \<open>loop_i\<close>, \<open>label_xi\<close> and \<open>r\<close>. Its first argument is NumPy's
  \<^verbatim>\<open>argsort\<close>, which the recomputed label needs.
\<close>

function main_loop ::
  "argsort \<Rightarrow> model \<Rightarrow> tensor \<Rightarrow> nat \<Rightarrow> real \<Rightarrow> int \<Rightarrow> int \<Rightarrow> tensor \<Rightarrow> nat \<Rightarrow> tensor list
     \<Rightarrow> error + (int \<times> nat \<times> tensor list)" where
  "main_loop argsort m x0 label_x0 eta max_iter loop_i xi label_xi r =
     (if label_xi = label_x0 \<and> loop_i < max_iter then
        (case iteration m x0 label_x0 eta xi of
           Inl e \<Rightarrow> Inl e
         | Inr (ri, xi_new) \<Rightarrow>
             (case top_label argsort (predict m xi_new) of
                Inl e \<Rightarrow> Inl e
              | Inr label_new \<Rightarrow>
                  main_loop argsort m x0 label_x0 eta max_iter (loop_i + 1) xi_new label_new (r @ [ri])))
      else Inr (loop_i, label_xi, r))"
  by pat_completeness auto
termination
  by (relation "measure (\<lambda>(argsort, m, x0, label_x0, eta, max_iter, loop_i, xi, label_xi, r).
                  nat (max_iter - loop_i))") auto

declare main_loop.simps [simp del]

section \<open>The aggregate perturbation\<close>

text \<open>
  \<^verbatim>\<open>r_sum[i] += sub\<close> where \<open>sub\<close> has one axis less than \<open>r_sum[i]\<close>: NumPy adds
  \<open>sub\<close> to every sub-array of \<open>r_sum[i]\<close> along the first axis.
\<close>

fun add_broadcast :: "ndarray \<Rightarrow> ndarray \<Rightarrow> ndarray" where
  "add_broadcast (Scalar a) sub = nd_zip (+) (Scalar a) sub"
| "add_broadcast (Array rows) sub = Array (map (\<lambda>row. nd_zip (+) row sub) rows)"

text \<open>
  Lines 201 and 202 for one field index \<open>i\<close>: \<^verbatim>\<open>for r_i in r: r_sum[i] += r_i[i][0]\<close>.
\<close>

fun accumulate :: "nat \<Rightarrow> ndarray \<Rightarrow> tensor list \<Rightarrow> error + ndarray" where
  "accumulate i acc [] = Inr acc"
| "accumulate i acc (r_i # rs) =
     (if i < length r_i then
        (case index0 (r_i ! i) of
           Inl e \<Rightarrow> Inl e
         | Inr sub \<Rightarrow> accumulate i (add_broadcast acc sub) rs)
      else Inl IndexError)"

text \<open>Lines 200 to 202: the outer loop over the field indices, on the list \<open>r_sum\<close>.\<close>

fun sum_fields :: "tensor list \<Rightarrow> nat list \<Rightarrow> tensor \<Rightarrow> error + tensor" where
  "sum_fields r [] r_sum = Inr r_sum"
| "sum_fields r (i # is) r_sum =
     (case accumulate i (r_sum ! i) r of
        Inl e \<Rightarrow> Inl e
      | Inr a \<Rightarrow> sum_fields r is (r_sum[i := a]))"

text \<open>Lines 199 to 202.\<close>

definition sum_perturbations :: "tensor \<Rightarrow> tensor list \<Rightarrow> error + tensor" where
  "sum_perturbations x0 r = sum_fields r [0..<length x0] (map zeros_like x0)"

section \<open>deepfool\<close>

text \<open>
  \<^verbatim>\<open>deepfool(model, x0, eta, max_iter)\<close> returns \<open>(r_sum, loop_i, label_xi)\<close>, or
  the exception that one of its steps raises. Its first argument here is NumPy's
  \<^verbatim>\<open>argsort\<close>.
\<close>

definition deepfool :: "argsort \<Rightarrow> model \<Rightarrow> tensor \<Rightarrow> real \<Rightarrow> int \<Rightarrow> error + (tensor \<times> int \<times> nat)" where
  "deepfool argsort m x0 eta max_iter =
     (case top_label argsort (predict m x0) of
        Inl e \<Rightarrow> Inl e
      | Inr label_x0 \<Rightarrow>
          (case main_loop argsort m x0 label_x0 eta max_iter 0 x0 label_x0 [] of
             Inl e \<Rightarrow> Inl e
           | Inr (loop_i, label_xi, r) \<Rightarrow>
               (case sum_perturbations x0 r of
                  Inl e \<Rightarrow> Inl e
                | Inr r_sum \<Rightarrow> Inr (r_sum, loop_i, label_xi))))"

section \<open>Saving and loading data\<close>

text \<open>
  \<^verbatim>\<open>save_pkl\<close> and \<^verbatim>\<open>load_pkl\<close> call the operating system and \<^verbatim>\<open>pickle\<close>, which
  are oracles here, each of which may raise. A Python object is \<^verbatim>\<open>None\<close> or another
  object; the contents of a file are a list of characters.

  \<open>pickle_dump\<close> is what \<^verbatim>\<open>pickle.dump\<close> writes for an object, or the exception it
  raises, and then \<open>pickle_partial\<close> is what it has written before raising;
  \<open>pickle_load\<close> is what \<^verbatim>\<open>pickle.load\<close> reads from the contents of a file.
\<close>

datatype 'a pyobj = PyNone | PyObj 'a

type_synonym path = string

type_synonym bytes = string

record 'a pickle =
  pickle_dump :: "'a pyobj \<Rightarrow> error + bytes"
  pickle_partial :: "'a pyobj \<Rightarrow> bytes"
  pickle_load :: "bytes \<Rightarrow> error + 'a pyobj"

text \<open>
  The file system: the contents of the files that exist, and the paths that
  \<^verbatim>\<open>open\<close> may write and may read.
\<close>

record filesystem =
  files :: "path \<rightharpoonup> bytes"
  writable :: "path \<Rightarrow> bool"
  readable :: "path \<Rightarrow> bool"

text \<open>\<^verbatim>\<open>open(path, "wb")\<close> creates the file or empties it.\<close>

definition open_wb :: "filesystem \<Rightarrow> path \<Rightarrow> error + filesystem" where
  "open_wb fs path =
     (if writable fs path then Inr (fs\<lparr>files := (files fs)(path \<mapsto> [])\<rparr>) else Inl OSError)"

text \<open>\<^verbatim>\<open>open(path, "rb")\<close> gives the contents of a file that exists and may be read.\<close>

definition open_rb :: "filesystem \<Rightarrow> path \<Rightarrow> error + bytes" where
  "open_rb fs path =
     (case files fs path of
        None \<Rightarrow> Inl OSError
      | Some b \<Rightarrow> if readable fs path then Inr b else Inl OSError)"

text \<open>
  Lines 87 to 89, the body of the \<^verbatim>\<open>try\<close> of \<^verbatim>\<open>save_pkl\<close>: the file system it leaves,
  and the exception if one is raised. Closing the closed file does nothing.
\<close>

definition try_save :: "'a pickle \<Rightarrow> filesystem \<Rightarrow> 'a pyobj \<Rightarrow> path \<Rightarrow> filesystem \<times> (error + unit)" where
  "try_save pk fs data path =
     (case open_wb fs path of
        Inl e \<Rightarrow> (fs, Inl e)
      | Inr fs1 \<Rightarrow>
          (case pickle_dump pk data of
             Inl e \<Rightarrow> (fs1\<lparr>files := (files fs1)(path \<mapsto> pickle_partial pk data)\<rparr>, Inl e)
           | Inr b \<Rightarrow> (fs1\<lparr>files := (files fs1)(path \<mapsto> b)\<rparr>, Inr ())))"

text \<open>
  \<^verbatim>\<open>save_pkl(data, path)\<close>: the bare \<^verbatim>\<open>except\<close> catches every exception and prints.
  The result is the file system and the lines printed.
\<close>

definition save_pkl ::
  "'a pickle \<Rightarrow> filesystem \<Rightarrow> 'a pyobj \<Rightarrow> path \<Rightarrow> error + (filesystem \<times> string list)" where
  "save_pkl pk fs data path =
     (case try_save pk fs data path of
        (fs', Inl e) \<Rightarrow> Inr (fs', [''Fail to save data''])
      | (fs', Inr u) \<Rightarrow> Inr (fs', []))"

text \<open>Lines 95 to 98, the body of the \<^verbatim>\<open>try\<close> of \<^verbatim>\<open>load_pkl\<close>.\<close>

definition try_load :: "'a pickle \<Rightarrow> filesystem \<Rightarrow> path \<Rightarrow> error + 'a pyobj" where
  "try_load pk fs path =
     (case open_rb fs path of
        Inl e \<Rightarrow> Inl e
      | Inr b \<Rightarrow> pickle_load pk b)"

text \<open>
  \<^verbatim>\<open>load_pkl(path)\<close>: the object returned and the lines printed. The bare
  \<^verbatim>\<open>except\<close> catches every exception, prints and returns \<^verbatim>\<open>None\<close>.
\<close>

definition load_pkl ::
  "'a pickle \<Rightarrow> filesystem \<Rightarrow> path \<Rightarrow> error + ('a pyobj \<times> string list)" where
  "load_pkl pk fs path =
     (case try_load pk fs path of
        Inl e \<Rightarrow> Inr (PyNone, [''Fail to load data''])
      | Inr to_return \<Rightarrow> Inr (to_return, []))"

section \<open>Notions used in the statements\<close>

text \<open>
  An object is serializable when whatever \<^verbatim>\<open>pickle.load\<close> reads from what
  \<^verbatim>\<open>pickle.dump\<close> wrote for it is equal to it.
\<close>

definition serializable :: "'a pickle \<Rightarrow> 'a pyobj \<Rightarrow> bool" where
  "serializable pk data \<longleftrightarrow>
     (\<forall>b v. pickle_dump pk data = Inr b \<longrightarrow> pickle_load pk b = Inr v \<longrightarrow> v = data)"

text \<open>
  The specification's norm: the Euclidean norm of the multi-field tensor read as one
  flattened vector.
\<close>

definition flat_norm_spec :: "tensor \<Rightarrow> real" where
  "flat_norm_spec x = sqrt (\<Sum>v\<leftarrow>concat (map flatten x). v\<^sup>2)"

text \<open>
  The specification's label: the lowest index whose score is maximal.
\<close>

definition stable_argmax_spec :: "real list \<Rightarrow> nat option" where
  "stable_argmax_spec f = find (\<lambda>i. list_all (\<lambda>v. v \<le> f ! i) f) [0..<length f]"

text \<open>
  One \<^verbatim>\<open>argsort\<close>: the insertion sort of the indices, which leaves equal scores in
  index order.
\<close>

definition insertion_argsort :: argsort where
  "insertion_argsort f = sort_key (\<lambda>i. f ! i) [0..<length f]"

text \<open>
  The specification's aggregate: the recorded perturbations summed field by field, each
  field in full.
\<close>

definition fieldwise_sum_spec :: "tensor \<Rightarrow> tensor list \<Rightarrow> tensor" where
  "fieldwise_sum_spec x0 r =
     foldl (\<lambda>r_sum r_i. map (\<lambda>(a, b). nd_zip (+) a b) (zip r_sum r_i)) (map zeros_like x0) r"

text \<open>The loop body of the class scan run on every class of a list, in the list's order.\<close>

fun visit_all ::
  "model \<Rightarrow> tensor \<Rightarrow> nat \<Rightarrow> tensor \<Rightarrow> real option \<Rightarrow> nat list \<Rightarrow> tensor \<times> real
     \<Rightarrow> error + (tensor \<times> real)" where
  "visit_all m xi label_x0 g fk_wk_min [] wl_fl = Inr wl_fl"
| "visit_all m xi label_x0 g fk_wk_min (k # ks) wl_fl =
     (case visit m xi label_x0 g fk_wk_min k wl_fl of
        Inl e \<Rightarrow> Inl e
      | Inr wl_fl' \<Rightarrow> visit_all m xi label_x0 g fk_wk_min ks wl_fl')"

text \<open>
  Two tensors have the same field count and the same shape in every field. The gradient
  of a model has the shape of its input, for inputs shaped like \<open>x0\<close>.
\<close>

definition same_shape :: "tensor \<Rightarrow> tensor \<Rightarrow> bool" where
  "same_shape a b \<longleftrightarrow> map zeros_like a = map zeros_like b"

definition grad_shaped :: "model \<Rightarrow> tensor \<Rightarrow> bool" where
  "grad_shaped m x0 \<longleftrightarrow>
     (\<forall>x k. k < num_classes m \<longrightarrow> same_shape x x0 \<longrightarrow> same_shape (gradient m x k) x0)"

text \<open>A field that \<^verbatim>\<open>[0]\<close> can index: an array with at least one sub-array.\<close>

fun has_first :: "ndarray \<Rightarrow> bool" where
  "has_first (Array (x # xs)) = True"
| "has_first a = False"

text \<open>
  The candidate \<open>xi\<close> after \<open>j\<close> passes of the loop body, whatever the labels are.
\<close>

fun candidate :: "model \<Rightarrow> tensor \<Rightarrow> nat \<Rightarrow> real \<Rightarrow> nat \<Rightarrow> error + tensor" where
  "candidate m x0 label_x0 eta 0 = Inr x0"
| "candidate m x0 label_x0 eta (Suc j) =
     (case candidate m x0 label_x0 eta j of
        Inl e \<Rightarrow> Inl e
      | Inr xi \<Rightarrow>
          (case iteration m x0 label_x0 eta xi of
             Inl e \<Rightarrow> Inl e
           | Inr (ri, xi_new) \<Rightarrow> Inr xi_new))"

subsection \<open>A synthetic classifier\<close>

text \<open>
  A test double with \<open>n\<close> classes on one field of two rows and one column. Its scores do
  not depend on the input: class 0 is the top class, class 1 the runner-up, class 9 the
  lowest. Class 0 has a zero gradient and every other class the gradient \<open>field_hi\<close>.
\<close>

definition field_lo :: ndarray where
  "field_lo = Array [Array [Scalar 0], Array [Scalar 0]]"

definition field_hi :: ndarray where
  "field_hi = Array [Array [Scalar 3], Array [Scalar 4]]"

definition toy :: "nat \<Rightarrow> model" where
  "toy n = \<lparr>num_classes = n,
            score = (\<lambda>x k. if k = 0 then 1 else if k = 1 then 9 / 10 else if k = 9 then 0
                          else if k < 10 then 1 / 4 else 1 / 2),
            gradient = (\<lambda>x k. if k = 0 then [field_lo] else [field_hi])\<rparr>"

definition x_ex :: tensor where
  "x_ex = [Array [Array [Scalar 1], Array [Scalar 2]]]"

text \<open>
  The same scores on an input of shape \<open>(1,)\<close>, whose one field is a number: class 0 has
  the gradient \<open>[0]\<close> and every other class the gradient \<open>[1]\<close>.
\<close>

definition toy_flat :: model where
  "toy_flat = \<lparr>num_classes = 10,
               score = score (toy 10),
               gradient = (\<lambda>x k. if k = 0 then [Scalar 0] else [Scalar 1])\<rparr>"

definition x_flat :: tensor where
  "x_flat = [Scalar 2]"

definition r_flat :: tensor where
  "r_flat = [Scalar (1000 / 1001)]"

text \<open>The perturbation that one pass of the loop records for \<open>toy 10\<close> on \<open>x_ex\<close>.\<close>

definition r_toy :: tensor where
  "r_toy = [Array [Array [Scalar (3000 / 25001)], Array [Scalar (4000 / 25001)]]]"

subsection \<open>A linear classifier\<close>

text \<open>
  Ten classes on the same field: the score of class 0 is the constant 3, the score of
  class 9 is the entry of the second row, every other score is 0, and the gradients are
  the gradients of these scores. From \<open>x_ex\<close> one step along class 9 crosses the
  boundary.
\<close>

fun second_entry :: "tensor \<Rightarrow> real" where
  "second_entry [Array [Array [Scalar a], Array [Scalar b]]] = b"
| "second_entry x = 0"

definition field_up :: ndarray where
  "field_up = Array [Array [Scalar 0], Array [Scalar 1]]"

definition linear :: model where
  "linear = \<lparr>num_classes = 10,
             score = (\<lambda>x k. if k = 0 then 3 else if k = 9 then second_entry x else 0),
             gradient = (\<lambda>x k. if k = 9 then [field_up] else [field_lo])\<rparr>"

definition r_linear :: tensor where
  "r_linear = [Array [Array [Scalar 0], Array [Scalar (1000 / 1001)]]]"

subsection \<open>A serialiser and a file system\<close>

text \<open>
  A serialiser of strings: \<^verbatim>\<open>None\<close> is written as \<open>N\<close>, a string as \<open>S\<close> and its
  characters; anything else does not load. In the file system every path may be written
  and read, and no file exists.
\<close>

definition text_pickle :: "string pickle" where
  "text_pickle = \<lparr>
     pickle_dump = (\<lambda>v. case v of PyNone \<Rightarrow> Inr ''N'' | PyObj s \<Rightarrow> Inr (CHR ''S'' # s)),
     pickle_partial = (\<lambda>v. []),
     pickle_load = (\<lambda>b. if b = ''N'' then Inr PyNone
                         else case b of [] \<Rightarrow> Inl PickleError
                              | c # s \<Rightarrow> if c = CHR ''S'' then Inr (PyObj s) else Inl PickleError)\<rparr>"

definition empty_fs :: filesystem where
  "empty_fs = \<lparr>files = Map.empty, writable = (\<lambda>p. True), readable = (\<lambda>p. True)\<rparr>"

definition saved_fs :: filesystem where
  "saved_fs = \<lparr>files = [''fold1.pkl'' \<mapsto> ''S0.25''], writable = (\<lambda>p. True),
                readable = (\<lambda>p. True)\<rparr>"

section \<open>Labels: the top class\<close>

lemma sorted_le_last: "sorted xs \<Longrightarrow> x \<in> set xs \<Longrightarrow> x \<le> last (xs :: 'a :: linorder list)"
  by (induction xs) auto

lemma insertion_argsort_ok: "argsort_ok insertion_argsort"
  by (simp add: argsort_ok_def insertion_argsort_def sorted_sort_key)

lemma argsort_nonempty:
  assumes "argsort_ok argsort" "f \<noteq> []"
  shows "argsort f \<noteq> []"
proof
  assume "argsort f = []"
  moreover from assms(1) have "set (argsort f) = {0..<length f}"
    by (simp add: argsort_ok_def)
  ultimately show False using assms(2) by simp
qed

lemma top_label_last:
  assumes "argsort_ok argsort" "f \<noteq> []"
  shows "top_label argsort f = Inr (last (argsort f))"
  using argsort_nonempty[OF assms] unfolding top_label_def
  by (cases "argsort f" rule: rev_cases) auto

lemma last_argsort_bound:
  assumes "argsort_ok argsort" "f \<noteq> []"
  shows "last (argsort f) < length f"
proof -
  have "last (argsort f) \<in> set (argsort f)"
    using argsort_nonempty[OF assms] by simp
  then show ?thesis using assms(1) by (simp add: argsort_ok_def)
qed

lemma last_argsort_max:
  assumes "argsort_ok argsort" "f \<noteq> []" "j < length f"
  shows "f ! j \<le> f ! last (argsort f)"
proof -
  let ?ys = "argsort f"
  have ne: "?ys \<noteq> []" using assms(1,2) by (rule argsort_nonempty)
  have s: "sorted (map (\<lambda>i. f ! i) ?ys)" using assms(1) by (simp add: argsort_ok_def)
  have "j \<in> set ?ys" using assms(1,3) by (simp add: argsort_ok_def)
  then have "f ! j \<in> set (map (\<lambda>i. f ! i) ?ys)" by auto
  with s have "f ! j \<le> last (map (\<lambda>i. f ! i) ?ys)" by (rule sorted_le_last)
  then show ?thesis using ne by (simp add: last_map)
qed

text \<open>Where one index holds the strictly greatest score, every \<open>argsort\<close> gives it.\<close>

lemma top_label_unique_max:
  assumes "argsort_ok argsort" "i < length f" "\<forall>j<length f. j \<noteq> i \<longrightarrow> f ! j < f ! i"
  shows "top_label argsort f = Inr i"
proof -
  from assms(2) have ne: "f \<noteq> []" by auto
  let ?l = "last (argsort f)"
  have l: "?l < length f" using assms(1) ne by (rule last_argsort_bound)
  have "f ! i \<le> f ! ?l" using assms(1) ne assms(2) by (rule last_argsort_max)
  with assms(3) l have "?l = i" by fastforce
  with top_label_last[OF assms(1) ne] show ?thesis by simp
qed

text \<open>
  C4, as the code has it. Whatever order \<^verbatim>\<open>argsort\<close> gives to equal scores, on a
  non-empty score vector the label \<^verbatim>\<open>f.argsort()[::-1][0]\<close> (the initial \<open>label_x0\<close> and
  every recomputed \<open>label_xi\<close>) is an index of the maximal score. Which of several indices
  of the maximal score it is, is \<^verbatim>\<open>argsort\<close>'s choice: the code has no tie-break of
  its own. The label is a function of the score vector alone, so computing it again on the
  same vector gives the same label.
\<close>

theorem top_label_is_maximum:
  assumes "argsort_ok argsort" and "f \<noteq> []"
  shows "\<exists>i. top_label argsort f = Inr i \<and> i < length f \<and> (\<forall>j<length f. f ! j \<le> f ! i)"
  using top_label_last[OF assms] last_argsort_bound[OF assms] last_argsort_max[OF assms]
  by auto

theorem top_label_is_maximum_witness:
  "argsort_ok insertion_argsort \<and> [1, 3, 3, 2 :: real] \<noteq> [] \<and>
   top_label insertion_argsort [1, 3, 3, 2] = Inr 2 \<and> [1, 3, 3, 2 :: real] ! 2 = 3"
proof -
  have ne: "[1, 3, 3, 2 :: real] \<noteq> []" by simp
  from top_label_is_maximum[OF insertion_argsort_ok ne] obtain i where
    i: "top_label insertion_argsort [1, 3, 3, 2] = Inr i" by blast
  moreover have "top_label insertion_argsort [1, 3, 3, 2] = Inr 2"
    by (simp add: top_label_def insertion_argsort_def upt_rec)
  ultimately have "i = 2" by simp
  with i ne insertion_argsort_ok show ?thesis by simp
qed

text \<open>
  C4 as stated fails on a tie. The scores \<open>[1, 1]\<close> are in ascending order as they stand;
  a sort that leaves them in place, as NumPy's and the insertion sort do, gives the
  indices \<open>[0, 1]\<close>, and the label is the last of them, 1. The lowest index of the maximal
  score is 0.
\<close>

theorem top_label_tie_counterexample:
  "argsort_ok insertion_argsort \<and> insertion_argsort [1, 1] = [0, 1] \<and>
   top_label insertion_argsort [1, 1] = Inr 1 \<and> stable_argmax_spec [1, 1] = Some 0"
  using insertion_argsort_ok
  by (simp add: top_label_def insertion_argsort_def stable_argmax_spec_def upt_rec)

section \<open>Norms and the robustness ratio\<close>

lemma sum_squares_nonneg: "0 \<le> (\<Sum>v\<leftarrow>vs. (v::real)\<^sup>2)"
  by (rule sum_list_nonneg) auto

lemma sum_squares_zero: "(\<And>v. v \<in> set vs \<Longrightarrow> v = (0::real)) \<Longrightarrow> (\<Sum>v\<leftarrow>vs. v\<^sup>2) = 0"
  by (induction vs) auto

lemma linalg_norm_squared: "(linalg_norm a)\<^sup>2 = (\<Sum>v\<leftarrow>flatten a. v\<^sup>2)"
  by (simp add: linalg_norm_def sum_squares_nonneg)

lemma squared_norm_flat: "squared_norm ws = (\<Sum>v\<leftarrow>concat (map flatten ws). v\<^sup>2)"
  by (induction ws) (simp_all add: squared_norm_def linalg_norm_squared)

lemma squared_norm_nonneg: "0 \<le> squared_norm ws"
  by (simp add: squared_norm_flat sum_squares_nonneg)

lemma joint_norm_flat: "joint_norm ws = flat_norm_spec ws"
  by (simp add: joint_norm_def flat_norm_spec_def squared_norm_flat)

lemma example_robustness_joint:
  "example_robustness x r = np_divide (joint_norm r) (joint_norm x)"
  by (simp add: example_robustness_def joint_norm_def squared_norm_def)

lemma sqrt_25: "sqrt 25 = 5"
  by (rule real_sqrt_unique) simp_all

lemma sqrt_quarter: "sqrt (1 / 4) = 1 / 2"
  by (rule real_sqrt_unique) (simp_all add: power2_eq_square)

text \<open>
  C5. When the joint norm of \<open>x\<close> is not zero, \<^verbatim>\<open>example_robustness(x, r)\<close> is the
  norm of \<open>r\<close> divided by the norm of \<open>x\<close>, both taken over the flattened union of all
  fields; for \<open>x = [3, 4]\<close> and \<open>r = [0.3, 0.4]\<close> it is \<open>0.1\<close>.
\<close>

theorem example_robustness_ratio:
  "(flat_norm_spec x \<noteq> 0 \<longrightarrow>
      example_robustness x r = Some (flat_norm_spec r / flat_norm_spec x)) \<and>
   example_robustness [Scalar 3, Scalar 4] [Scalar (3 / 10), Scalar (4 / 10)] = Some (1 / 10)"
proof
  show "flat_norm_spec x \<noteq> 0 \<longrightarrow>
      example_robustness x r = Some (flat_norm_spec r / flat_norm_spec x)"
    by (simp add: example_robustness_joint joint_norm_flat np_divide_def)
  show "example_robustness [Scalar 3, Scalar 4] [Scalar (3 / 10), Scalar (4 / 10)] = Some (1 / 10)"
    by (simp add: example_robustness_def linalg_norm_def np_divide_def power2_eq_square
          sqrt_25 sqrt_quarter)
qed

theorem example_robustness_ratio_witness:
  "flat_norm_spec [Scalar 3, Scalar 4] = 5 \<and>
   flat_norm_spec [Scalar (3 / 10), Scalar (4 / 10)] = 1 / 2 \<and>
   example_robustness [Scalar 3, Scalar 4] [Scalar (3 / 10), Scalar (4 / 10)] = Some ((1 / 2) / 5)"
proof -
  have x: "flat_norm_spec [Scalar 3, Scalar 4] = 5"
    by (simp add: flat_norm_spec_def sqrt_25)
  have r: "flat_norm_spec [Scalar (3 / 10), Scalar (4 / 10)] = 1 / 2"
    by (simp add: flat_norm_spec_def power2_eq_square sqrt_quarter)
  have "flat_norm_spec [Scalar 3, Scalar 4] \<noteq> 0" using x by simp
  with example_robustness_ratio[of "[Scalar 3, Scalar 4]" "[Scalar (3 / 10), Scalar (4 / 10)]"]
  have "example_robustness [Scalar 3, Scalar 4] [Scalar (3 / 10), Scalar (4 / 10)]
          = Some (flat_norm_spec [Scalar (3 / 10), Scalar (4 / 10)] / flat_norm_spec [Scalar 3, Scalar 4])"
    by blast
  then show ?thesis using x r by simp
qed

section \<open>The stabilizer\<close>

lemma zip_same_sub_zero: "v \<in> set (flatten (nd_zip (-) g g)) \<Longrightarrow> v = 0"
proof (induction g arbitrary: v)
  case (Scalar a)
  then show ?case by simp
next
  case (Array xs)
  then show ?case by (auto simp: zip_same_conv_map)
qed

lemma squared_norm_same: "squared_norm (map (\<lambda>(a, b). nd_zip (-) a b) (zip g g)) = 0"
  unfolding squared_norm_flat
  by (rule sum_squares_zero) (auto simp: zip_same_conv_map dest: zip_same_sub_zero)

text \<open>
  C9. The divisor of the distance and the divisor of the step are at least \<open>1e-3\<close> for
  every gradient difference, so both quotients are true quotients. Where a class has the
  gradient \<open>g\<close> and the score of the top class, \<open>w_k = g - g\<close> has norm zero and
  \<open>f_k = 0\<close>: the divisors are exactly \<open>1e-3\<close> and distance and step are \<open>0\<close>. Neither
  computation has an error branch.
\<close>

theorem stabilized_divisors:
  "1 / 1000 \<le> distance_divisor w_k \<and> 1 / 1000 \<le> step_divisor w_l \<and>
   distance f_k w_k * distance_divisor w_k = \<bar>f_k\<bar> \<and>
   step_scale f_l w_l * step_divisor w_l = \<bar>f_l\<bar> \<and>
   distance_divisor (map (\<lambda>(a, b). nd_zip (-) a b) (zip g g)) = 1 / 1000 \<and>
   step_divisor (map (\<lambda>(a, b). nd_zip (-) a b) (zip g g)) = 1 / 1000 \<and>
   distance 0 (map (\<lambda>(a, b). nd_zip (-) a b) (zip g g)) = 0 \<and>
   step_scale 0 (map (\<lambda>(a, b). nd_zip (-) a b) (zip g g)) = 0"
proof -
  have d: "1 / 1000 \<le> distance_divisor w" for w
    by (simp add: distance_divisor_def joint_norm_def squared_norm_nonneg)
  have s: "1 / 1000 \<le> step_divisor w" for w
    by (simp add: step_divisor_def squared_norm_nonneg)
  have dn: "distance_divisor w_k \<noteq> 0" using d[of w_k] by simp
  have sn: "step_divisor w_l \<noteq> 0" using s[of w_l] by simp
  show ?thesis using d s dn sn
    by (simp add: distance_def step_scale_def)
       (simp add: distance_divisor_def step_divisor_def joint_norm_def squared_norm_same)
qed

section \<open>The synthetic classifiers, evaluated\<close>

lemma upt_10: "[0..<10] = [0, 1, 2, 3, 4, 5, 6, 7, 8, 9 :: nat]"
  by (simp add: upt_rec)

lemma upt_12: "[0..<12] = [0, 1, 2, 3, 4, 5, 6, 7, 8, 9, 10, 11 :: nat]"
  by (simp add: upt_rec)

lemma toy_sel [simp]:
  "num_classes (toy n) = n"
  "score (toy n) x k = (if k = 0 then 1 else if k = 1 then 9 / 10 else if k = 9 then 0
                          else if k < 10 then 1 / 4 else 1 / 2)"
  "gradient (toy n) x k = (if k = 0 then [field_lo] else [field_hi])"
  by (simp_all add: toy_def)

lemma predict_toy_10:
  "predict (toy 10) x = [1, 9 / 10, 1 / 4, 1 / 4, 1 / 4, 1 / 4, 1 / 4, 1 / 4, 1 / 4, 0]"
  by (simp add: predict_def upt_10)

lemma predict_toy_12:
  "predict (toy 12) x
     = [1, 9 / 10, 1 / 4, 1 / 4, 1 / 4, 1 / 4, 1 / 4, 1 / 4, 1 / 4, 0, 1 / 2, 1 / 2]"
  by (simp add: predict_def upt_12)

lemma predict_toy_3: "predict (toy 3) x = [1, 9 / 10, 1 / 4]"
  by (simp add: predict_def upt_rec)

lemma top_label_toy_10:
  assumes "argsort_ok argsort"
  shows "top_label argsort (predict (toy 10) x) = Inr 0"
  using assms by (rule top_label_unique_max) (auto simp: predict_def)

lemma hi_minus_lo [simp]: "nd_zip (-) field_hi field_lo = field_hi"
  by (simp add: field_hi_def field_lo_def)

lemma zeros_like_x_ex [simp]: "map zeros_like x_ex = [field_lo]"
  by (simp add: x_ex_def field_lo_def)

lemma squared_norm_hi: "squared_norm [field_hi] = 25"
  by (simp add: squared_norm_def linalg_norm_def field_hi_def)

lemma joint_norm_hi: "joint_norm [field_hi] = 5"
  by (simp add: joint_norm_def squared_norm_hi sqrt_25)

lemma visit_toy:
  "0 < k \<Longrightarrow> k < n \<Longrightarrow>
     visit (toy n) xi 0 [field_lo] None k wl_fl
       = Inr ([field_hi], predict (toy n) xi ! k - predict (toy n) xi ! 0)"
  by (simp add: visit_def get_gradient_def Let_def)

lemma class_scan_toy_10: "class_scan (toy 10) x_ex xi 0 [field_lo] = Inr ([field_hi], - 1)"
  by (simp add: class_scan_def upt_10 visit_toy predict_toy_10)

lemma class_scan_toy_12: "class_scan (toy 12) x_ex xi 0 [field_lo] = Inr ([field_hi], - 1)"
  by (simp add: class_scan_def upt_10 visit_toy predict_toy_12)

lemma class_scan_toy_3: "class_scan (toy 3) x_ex xi 0 [field_lo] = Inl InvalidArgumentError"
  by (simp add: class_scan_def upt_10 visit_toy predict_toy_3)
     (simp add: visit_def get_gradient_def)

lemma visit_all_toy_12:
  "visit_all (toy 12) xi 0 [field_lo] None (removeAll 0 [0..<num_classes (toy 12)])
     ([field_lo], 0) = Inr ([field_hi], - (1 / 2))"
  by (simp add: upt_12 visit_toy predict_toy_12)

lemma visit_all_toy_3:
  "visit_all (toy 3) xi 0 [field_lo] None (removeAll 0 [0..<num_classes (toy 3)])
     ([field_lo], 0) = Inr ([field_hi], - (3 / 4))"
  by (simp add: upt_rec visit_toy predict_toy_3)

lemma distances_toy:
  "distance (- (1 / 10)) [field_hi] = 100 / 5001"
  "distance (- 1) [field_hi] = 1000 / 5001"
  by (simp_all add: distance_def distance_divisor_def joint_norm_hi)

lemma step_scale_toy: "step_scale (- 1) [field_hi] = 1000 / 25001"
  by (simp add: step_scale_def step_divisor_def squared_norm_hi)

lemma iteration_toy_10:
  "iteration (toy 10) x_ex 0 eta xi =
     Inr (r_toy, map (\<lambda>(xi_item, ri_item). nd_zip (+) xi_item (nd_scale (1 + eta) ri_item))
                   (zip xi r_toy))"
  by (simp add: iteration_def get_gradient_def class_scan_toy_10 step_scale_toy Let_def)
     (simp add: field_hi_def r_toy_def)

lemma main_loop_exit:
  assumes "\<not> (label_xi = label_x0 \<and> loop_i < max_iter)"
  shows "main_loop argsort m x0 label_x0 eta max_iter loop_i xi label_xi r = Inr (loop_i, label_xi, r)"
  by (subst main_loop.simps) (rule if_not_P[OF assms])

lemma main_loop_step:
  assumes "label_xi = label_x0 \<and> loop_i < max_iter"
  shows "main_loop argsort m x0 label_x0 eta max_iter loop_i xi label_xi r =
     (case iteration m x0 label_x0 eta xi of
        Inl e \<Rightarrow> Inl e
      | Inr (ri, xi_new) \<Rightarrow>
          (case top_label argsort (predict m xi_new) of
             Inl e \<Rightarrow> Inl e
           | Inr label_new \<Rightarrow>
               main_loop argsort m x0 label_x0 eta max_iter (loop_i + 1) xi_new label_new (r @ [ri])))"
  by (subst main_loop.simps) (rule if_P[OF assms])

lemma main_loop_toy_1:
  assumes "argsort_ok argsort"
  shows "main_loop argsort (toy 10) x_ex 0 eta 1 0 x_ex 0 [] = Inr (1, 0, [r_toy])"
  by (simp add: main_loop_step main_loop_exit iteration_toy_10 top_label_toy_10[OF assms])

lemma main_loop_toy_2:
  assumes "argsort_ok argsort"
  shows "main_loop argsort (toy 10) x_ex 0 eta 2 0 x_ex 0 [] = Inr (2, 0, [r_toy, r_toy])"
  by (simp add: main_loop_step main_loop_exit iteration_toy_10 top_label_toy_10[OF assms])

lemma sum_perturbations_toy_1:
  "sum_perturbations x_ex [r_toy]
     = Inr [Array [Array [Scalar (3000 / 25001)], Array [Scalar (3000 / 25001)]]]"
  by (simp add: sum_perturbations_def r_toy_def field_lo_def) (simp add: x_ex_def)

lemma deepfool_toy_1:
  assumes "argsort_ok argsort"
  shows "deepfool argsort (toy 10) x_ex eta 1
     = Inr ([Array [Array [Scalar (3000 / 25001)], Array [Scalar (3000 / 25001)]]], 1, 0)"
  by (simp add: deepfool_def top_label_toy_10[OF assms] main_loop_toy_1[OF assms]
        sum_perturbations_toy_1)

lemma sum_perturbations_toy_2:
  "sum_perturbations x_ex [r_toy, r_toy]
     = Inr [Array [Array [Scalar (6000 / 25001)], Array [Scalar (6000 / 25001)]]]"
  by (simp add: sum_perturbations_def r_toy_def field_lo_def) (simp add: x_ex_def)

lemma deepfool_toy_2:
  assumes "argsort_ok argsort"
  shows "deepfool argsort (toy 10) x_ex eta 2
     = Inr ([Array [Array [Scalar (6000 / 25001)], Array [Scalar (6000 / 25001)]]], 2, 0)"
  by (simp add: deepfool_def top_label_toy_10[OF assms] main_loop_toy_2[OF assms]
        sum_perturbations_toy_2)

lemma fieldwise_sum_toy_2:
  "fieldwise_sum_spec x_ex [r_toy, r_toy]
     = [Array [Array [Scalar (6000 / 25001)], Array [Scalar (8000 / 25001)]]]"
  by (simp add: fieldwise_sum_spec_def r_toy_def field_lo_def)

lemma toy_flat_sel [simp]:
  "num_classes toy_flat = 10"
  "score toy_flat x k = score (toy 10) x k"
  "gradient toy_flat x k = (if k = 0 then [Scalar 0] else [Scalar 1])"
  by (simp_all add: toy_flat_def)

lemma predict_toy_flat: "predict toy_flat x = predict (toy 10) x"
  by (simp add: predict_def)

lemma visit_toy_flat:
  "0 < k \<Longrightarrow> k < 10 \<Longrightarrow>
     visit toy_flat xi 0 [Scalar 0] None k wl_fl
       = Inr ([Scalar 1], predict (toy 10) xi ! k - predict (toy 10) xi ! 0)"
  by (simp add: visit_def get_gradient_def predict_toy_flat Let_def)

lemma class_scan_toy_flat: "class_scan toy_flat x_flat xi 0 [Scalar 0] = Inr ([Scalar 1], - 1)"
  by (simp add: class_scan_def upt_10 visit_toy_flat predict_toy_10)

lemma iteration_toy_flat:
  "iteration toy_flat x_flat 0 0 x_flat = Inr (r_flat, [Scalar (3002 / 1001)])"
  by (simp add: iteration_def get_gradient_def class_scan_toy_flat step_scale_def
        step_divisor_def squared_norm_def linalg_norm_def Let_def)
     (simp add: r_flat_def x_flat_def)

lemma main_loop_toy_flat:
  assumes "argsort_ok argsort"
  shows "main_loop argsort toy_flat x_flat 0 0 1 0 x_flat 0 [] = Inr (1, 0, [r_flat])"
  by (simp add: main_loop_step main_loop_exit iteration_toy_flat predict_toy_flat
        top_label_toy_10[OF assms])

lemma deepfool_toy_flat:
  assumes "argsort_ok argsort"
  shows "deepfool argsort toy_flat x_flat 0 1 = Inl IndexError"
  by (simp add: deepfool_def predict_toy_flat top_label_toy_10[OF assms]
        main_loop_toy_flat[OF assms] sum_perturbations_def)
     (simp add: x_flat_def r_flat_def)

lemma has_first_x_ex: "list_all has_first x_ex"
  by (simp add: x_ex_def)

lemma linear_sel [simp]:
  "num_classes linear = 10"
  "score linear x k = (if k = 0 then 3 else if k = 9 then second_entry x else 0)"
  "gradient linear x k = (if k = 9 then [field_up] else [field_lo])"
  by (simp_all add: linear_def)

lemma predict_linear: "predict linear x = [3, 0, 0, 0, 0, 0, 0, 0, 0, second_entry x]"
  by (simp add: predict_def upt_10)

lemma top_label_linear_0:
  assumes "argsort_ok argsort" "second_entry x < 3"
  shows "top_label argsort (predict linear x) = Inr 0"
  using assms(1) by (rule top_label_unique_max) (use assms(2) in \<open>auto simp: predict_def\<close>)

lemma top_label_linear_9:
  assumes "argsort_ok argsort" "3 < second_entry x"
  shows "top_label argsort (predict linear x) = Inr 9"
  using assms(1) by (rule top_label_unique_max) (use assms(2) in \<open>auto simp: predict_def\<close>)

lemma up_minus_lo [simp]:
  "nd_zip (-) field_up field_lo = field_up" "nd_zip (-) field_lo field_lo = field_lo"
  by (simp_all add: field_up_def field_lo_def)

lemma visit_linear:
  "k < 10 \<Longrightarrow> visit linear xi 0 [field_lo] None k wl_fl =
     Inr ([if k = 9 then field_up else field_lo], predict linear xi ! k - predict linear xi ! 0)"
  by (simp add: visit_def get_gradient_def Let_def)

lemma class_scan_linear:
  "class_scan linear x_ex xi 0 [field_lo] = Inr ([field_up], second_entry xi - 3)"
  by (simp add: class_scan_def upt_10 visit_linear predict_linear)

lemma squared_norm_up: "squared_norm [field_up] = 1"
  by (simp add: squared_norm_def linalg_norm_def field_up_def)

lemma iteration_linear:
  "iteration linear x_ex 0 (1 / 100) x_ex =
     Inr (r_linear, [Array [Array [Scalar 1], Array [Scalar (3012 / 1001)]]])"
  by (simp add: iteration_def get_gradient_def class_scan_linear step_scale_def
        step_divisor_def squared_norm_up Let_def)
     (simp add: field_up_def r_linear_def x_ex_def)

lemma main_loop_linear:
  assumes "argsort_ok argsort"
  shows "main_loop argsort linear x_ex 0 (1 / 100) 20 0 x_ex 0 [] = Inr (1, 9, [r_linear])"
  by (simp add: main_loop_step main_loop_exit iteration_linear top_label_linear_9[OF assms])

lemma top_label_linear_x_ex:
  assumes "argsort_ok argsort"
  shows "top_label argsort (predict linear x_ex) = Inr 0"
  using assms by (rule top_label_linear_0) (simp add: x_ex_def)

lemma deepfool_linear:
  assumes "argsort_ok argsort"
  shows "deepfool argsort linear x_ex (1 / 100) 20 = Inr ([field_lo], 1, 9)"
  by (simp add: deepfool_def top_label_linear_x_ex[OF assms] main_loop_linear[OF assms]
        sum_perturbations_def)
     (simp add: x_ex_def r_linear_def field_lo_def)

section \<open>The class scan\<close>

lemma scan_classes_removeAll:
  "scan_classes m xi l g b ks s = visit_all m xi l g b (removeAll l ks) s"
  by (induction ks arbitrary: s) (auto split: sum.splits)

lemma visit_ok:
  "k < num_classes m \<Longrightarrow>
     visit m xi l g None k s =
       Inr (map (\<lambda>(a, b). nd_zip (-) a b) (zip (gradient m xi k) g),
            predict m xi ! k - predict m xi ! l)"
  by (simp add: visit_def get_gradient_def Let_def)

lemma visit_raises:
  "\<not> k < num_classes m \<Longrightarrow> visit m xi l g b k s = Inl InvalidArgumentError"
  by (simp add: visit_def get_gradient_def)

lemma visit_all_raises:
  assumes "\<exists>k\<in>set ks. \<not> k < num_classes m"
  shows "visit_all m xi l g None ks s = Inl InvalidArgumentError"
  using assms
proof (induction ks arbitrary: s)
  case Nil
  then show ?case by simp
next
  case (Cons k ks)
  show ?case
  proof (cases "k < num_classes m")
    case True
    with Cons.prems have "\<exists>k\<in>set ks. \<not> k < num_classes m" by auto
    from Cons.IH[OF this] True show ?thesis by (simp add: visit_ok)
  next
    case False
    then show ?thesis by (simp add: visit_raises)
  qed
qed

text \<open>
  C1 fails on the code. \<open>fk_wk_min\<close> stays \<^verbatim>\<open>np.inf\<close>, so every scanned class
  overwrites \<open>(w_l, f_l)\<close> and the scan ends with the last class. On \<open>toy 10\<close>, whose top
  class is 0, class 1 has the distance \<open>100 / 5001\<close> and class 9 the distance
  \<open>1000 / 5001\<close>; the scan returns the pair of class 9, with \<open>f_l = - 1\<close>, not the pair of
  class 1, with \<open>f_l = - 1 / 10\<close>.
\<close>

theorem class_scan_keeps_last_class:
  "class_scan (toy 10) x_ex x_ex 0 [field_lo] = Inr ([field_hi], - 1) \<and>
   visit (toy 10) x_ex 0 [field_lo] None 1 (map zeros_like x_ex, 0) = Inr ([field_hi], - (1 / 10)) \<and>
   visit (toy 10) x_ex 0 [field_lo] None 9 (map zeros_like x_ex, 0) = Inr ([field_hi], - 1) \<and>
   distance (- (1 / 10)) [field_hi] = 100 / 5001 \<and>
   distance (- 1) [field_hi] = 1000 / 5001"
  by (simp add: class_scan_toy_10 visit_toy predict_toy_10 distances_toy)

text \<open>
  C3, as the code has it. Whatever the width of the model's output, the scan runs the
  loop body on the classes of \<^verbatim>\<open>range(10)\<close> other than \<open>label_x0\<close>, in increasing
  order, and stops at the first class that raises: the class count is the constant 10 of
  the source. A model of fewer than 10 classes has no class \<open>num_classes m\<close>, and the scan
  raises there.
\<close>

theorem class_scan_fixed_range:
  "class_scan m x0 xi label_x0 g =
     visit_all m xi label_x0 g None (removeAll label_x0 [0..<10]) (map zeros_like x0, 0) \<and>
   set (removeAll label_x0 [0..<10]) = {0..<10} - {label_x0} \<and>
   (label_x0 < num_classes m \<and> num_classes m < 10 \<longrightarrow>
      class_scan m x0 xi label_x0 g = Inl InvalidArgumentError)"
proof (intro conjI impI)
  show eq: "class_scan m x0 xi label_x0 g =
     visit_all m xi label_x0 g None (removeAll label_x0 [0..<10]) (map zeros_like x0, 0)"
    by (simp add: class_scan_def scan_classes_removeAll)
  show "set (removeAll label_x0 [0..<10]) = {0..<10} - {label_x0}" by simp
  assume "label_x0 < num_classes m \<and> num_classes m < 10"
  then have "num_classes m \<in> set (removeAll label_x0 [0..<10])" by auto
  then have "\<exists>k\<in>set (removeAll label_x0 [0..<10]). \<not> k < num_classes m" by blast
  from visit_all_raises[OF this] eq
  show "class_scan m x0 xi label_x0 g = Inl InvalidArgumentError" by simp
qed

theorem class_scan_fixed_range_witness:
  "0 < num_classes (toy 3) \<and> num_classes (toy 3) < 10 \<and>
   class_scan (toy 3) x_ex x_ex 0 [field_lo] = Inl InvalidArgumentError"
proof -
  have h: "0 < num_classes (toy 3) \<and> num_classes (toy 3) < 10" by simp
  with class_scan_fixed_range[of "toy 3" x_ex x_ex 0 "[field_lo]"]
  have "class_scan (toy 3) x_ex x_ex 0 [field_lo] = Inl InvalidArgumentError" by blast
  with h show ?thesis by simp
qed

text \<open>
  C3 as stated fails where the output width is not 10. With 12 classes the scan stops at
  class 9 and never reads classes 10 and 11, so its result differs from the scan of all
  classes but the top one; with 3 classes it asks for class 3 and raises.
\<close>

theorem class_scan_range_counterexample:
  "class_scan (toy 12) x_ex x_ex 0 [field_lo] = Inr ([field_hi], - 1) \<and>
   visit_all (toy 12) x_ex 0 [field_lo] None (removeAll 0 [0..<num_classes (toy 12)])
     (map zeros_like x_ex, 0) = Inr ([field_hi], - (1 / 2)) \<and>
   class_scan (toy 3) x_ex x_ex 0 [field_lo] = Inl InvalidArgumentError \<and>
   visit_all (toy 3) x_ex 0 [field_lo] None (removeAll 0 [0..<num_classes (toy 3)])
     (map zeros_like x_ex, 0) = Inr ([field_hi], - (3 / 4))"
  using class_scan_toy_12[of x_ex] visit_all_toy_12[of x_ex] class_scan_toy_3[of x_ex]
    visit_all_toy_3[of x_ex]
  by simp

section \<open>The returned perturbation\<close>

text \<open>
  C2 fails on the code. \<^verbatim>\<open>r_sum[i] += r_i[i][0]\<close> adds the first row of the field to
  every row of \<open>r_sum[i]\<close>. One pass on \<open>toy 10\<close> records the perturbation \<open>r_toy\<close>, with
  rows \<open>3000 / 25001\<close> and \<open>4000 / 25001\<close>; the returned \<open>r_sum\<close> has the first of them in
  both rows. The top class of \<open>toy 10\<close> has no tie, so this holds for every \<^verbatim>\<open>argsort\<close>.
\<close>

theorem r_sum_repeats_first_row:
  assumes "argsort_ok argsort"
  shows "main_loop argsort (toy 10) x_ex 0 0 1 0 x_ex 0 [] = Inr (1, 0, [r_toy]) \<and>
   r_toy = [Array [Array [Scalar (3000 / 25001)], Array [Scalar (4000 / 25001)]]] \<and>
   deepfool argsort (toy 10) x_ex 0 1
     = Inr ([Array [Array [Scalar (3000 / 25001)], Array [Scalar (3000 / 25001)]]], 1, 0)"
  by (simp add: main_loop_toy_1[OF assms] deepfool_toy_1[OF assms]) (simp add: r_toy_def)

theorem r_sum_repeats_first_row_witness:
  "argsort_ok insertion_argsort \<and>
   deepfool insertion_argsort (toy 10) x_ex 0 1
     = Inr ([Array [Array [Scalar (3000 / 25001)], Array [Scalar (3000 / 25001)]]], 1, 0)"
  using r_sum_repeats_first_row[OF insertion_argsort_ok] insertion_argsort_ok by simp

section \<open>The iteration budget\<close>

lemma main_loop_bounds:
  "main_loop argsort m x0 l eta mx i xi lab r = Inr (n, l', r') \<Longrightarrow> i \<le> mx \<Longrightarrow>
     i \<le> n \<and> n \<le> mx \<and> int (length r') = int (length r) + (n - i) \<and> (l' \<noteq> l \<or> n = mx)"
proof (induction argsort m x0 l eta mx i xi lab r rule: main_loop.induct)
  case (1 argsort m x0 label_x0 eta max_iter loop_i xi label_xi r)
  show ?case
  proof (cases "label_xi = label_x0 \<and> loop_i < max_iter")
    case False
    with "1.prems" show ?thesis
      by (auto simp: main_loop_exit)
  next
    case True
    from "1.prems"(1) obtain ri xi_new label_new where
      it: "iteration m x0 label_x0 eta xi = Inr (ri, xi_new)" and
      tl: "top_label argsort (predict m xi_new) = Inr label_new" and
      rec: "main_loop argsort m x0 label_x0 eta max_iter (loop_i + 1) xi_new label_new (r @ [ri])
              = Inr (n, l', r')"
      unfolding main_loop_step[OF True] by (auto split: sum.splits)
    from "1.IH"[OF True it refl tl rec] True
    show ?thesis by auto
  qed
qed

lemma sum_fields_nil: "\<forall>i\<in>set is. i < length s \<Longrightarrow> sum_fields [] is s = Inr s"
  by (induction "is" arbitrary: s) auto

lemma deepfool_zero:
  "top_label argsort (predict m x0) = Inr l \<Longrightarrow> deepfool argsort m x0 eta 0 = Inr (map zeros_like x0, 0, l)"
  by (simp add: deepfool_def main_loop_exit sum_perturbations_def sum_fields_nil)

lemma shape_zeros_like: "nd_shape (zeros_like a) = nd_shape a"
  by (induction a) (auto split: list.splits)

lemma flatten_zeros_like: "v \<in> set (flatten (zeros_like a)) \<Longrightarrow> v = 0"
  by (induction a arbitrary: v) auto

lemma top_label_ok:
  assumes "argsort_ok argsort" "0 < num_classes m"
  shows "\<exists>l. top_label argsort (predict m x) = Inr l \<and> l < num_classes m"
proof -
  have ne: "predict m x \<noteq> []" using assms(2) by (simp add: predict_def)
  have "length (predict m x) = num_classes m" by (simp add: predict_def)
  with top_label_last[OF assms(1) ne] last_argsort_bound[OF assms(1) ne] show ?thesis by simp
qed

text \<open>
  C6. With \<open>max_iter = 0\<close> the loop body never runs: no perturbation is recorded, the
  returned perturbation is \<^verbatim>\<open>np.zeros\<close> of every field of \<open>x0\<close> (as many fields as
  \<open>x0\<close>, each of the shape of its field and all zero), the count is 0 and the final label
  is \<open>label_x0\<close>. The model has at least one class, so that \<open>label_x0\<close> exists, and
  \<^verbatim>\<open>argsort\<close> is any sort of the indices.
\<close>

theorem zero_budget:
  assumes "argsort_ok argsort" and "0 < num_classes m"
  shows "\<exists>label_x0. top_label argsort (predict m x0) = Inr label_x0
     \<and> main_loop argsort m x0 label_x0 eta 0 0 x0 label_x0 [] = Inr (0, label_x0, [])
     \<and> deepfool argsort m x0 eta 0 = Inr (map zeros_like x0, 0, label_x0)
     \<and> length (map zeros_like x0) = length x0
     \<and> (\<forall>i<length x0. nd_shape (map zeros_like x0 ! i) = nd_shape (x0 ! i)
            \<and> (\<forall>v\<in>set (flatten (map zeros_like x0 ! i)). v = 0))"
proof -
  from top_label_ok[OF assms, of x0] obtain l where l: "top_label argsort (predict m x0) = Inr l"
    by blast
  have "main_loop argsort m x0 l eta 0 0 x0 l [] = Inr (0, l, [])"
    by (simp add: main_loop_exit)
  moreover have "deepfool argsort m x0 eta 0 = Inr (map zeros_like x0, 0, l)"
    using l by (rule deepfool_zero)
  moreover have "\<forall>i<length x0. nd_shape (map zeros_like x0 ! i) = nd_shape (x0 ! i)
            \<and> (\<forall>v\<in>set (flatten (map zeros_like x0 ! i)). v = 0)"
    by (auto simp: shape_zeros_like dest: flatten_zeros_like)
  ultimately show ?thesis using l by auto
qed

theorem zero_budget_witness:
  "argsort_ok insertion_argsort \<and> 0 < num_classes linear \<and>
   deepfool insertion_argsort linear x_ex (1 / 100) 0 = Inr ([field_lo], 0, 0)"
proof -
  have n: "0 < num_classes linear" by simp
  from zero_budget[OF insertion_argsort_ok n, of x_ex "1 / 100"] obtain l where
    "top_label insertion_argsort (predict linear x_ex) = Inr l"
    "deepfool insertion_argsort linear x_ex (1 / 100) 0 = Inr (map zeros_like x_ex, 0, l)"
    by blast
  then show ?thesis
    using insertion_argsort_ok by (simp add: top_label_linear_x_ex)
qed

section \<open>Shapes along the loop\<close>

lemma zeros_like_idem: "zeros_like (zeros_like a) = zeros_like a"
  by (induction a) auto

lemma zeros_like_scale: "zeros_like (nd_scale c a) = zeros_like a"
  by (induction a) auto

lemma zeros_like_zip:
  "zeros_like a = zeros_like b \<Longrightarrow> zeros_like (nd_zip f a b) = zeros_like a"
proof (induction a arbitrary: b)
  case (Scalar v)
  then show ?case by (cases b) auto
next
  case (Array xs)
  from Array.prems obtain ys where b: "b = Array ys"
    and eq: "map zeros_like xs = map zeros_like ys"
    by (cases b) auto
  from eq have len: "length xs = length ys" by (rule map_eq_imp_length_eq)
  have "map (\<lambda>(x, y). zeros_like (nd_zip f x y)) (zip xs ys) = map zeros_like xs"
  proof (rule nth_equalityI)
    show "length (map (\<lambda>(x, y). zeros_like (nd_zip f x y)) (zip xs ys))
            = length (map zeros_like xs)"
      using len by simp
  next
    fix i assume "i < length (map (\<lambda>(x, y). zeros_like (nd_zip f x y)) (zip xs ys))"
    then have i: "i < length xs" "i < length ys" using len by simp_all
    from eq i have "zeros_like (xs ! i) = zeros_like (ys ! i)"
      by (metis nth_map)
    with Array.IH[of "xs ! i" "ys ! i"] i
    show "map (\<lambda>(x, y). zeros_like (nd_zip f x y)) (zip xs ys) ! i = map zeros_like xs ! i"
      by simp
  qed
  then show ?case using b by (simp add: comp_def case_prod_unfold)
qed

lemma same_shape_refl: "same_shape a a"
  by (simp add: same_shape_def)

lemma same_shape_zeros: "same_shape (map zeros_like a) a"
  by (simp add: same_shape_def zeros_like_idem comp_def)

lemma same_shape_scale: "same_shape a b \<Longrightarrow> same_shape (map (nd_scale c) a) b"
  by (simp add: same_shape_def zeros_like_scale comp_def)

lemma same_shape_zip:
  assumes "same_shape a c" "same_shape b c"
  shows "same_shape (map (\<lambda>(x, y). nd_zip f x y) (zip a b)) c"
proof -
  from assms have "zeros_like (Array a) = zeros_like (Array b)"
    by (simp add: same_shape_def)
  then have "zeros_like (nd_zip f (Array a) (Array b)) = zeros_like (Array a)"
    by (rule zeros_like_zip)
  with assms(1) show ?thesis by (simp add: same_shape_def)
qed

lemma same_shape_step:
  assumes "same_shape xi x0" "same_shape ri x0"
  shows "same_shape (map (\<lambda>(xi_item, ri_item). nd_zip (+) xi_item (nd_scale c ri_item))
                      (zip xi ri)) x0"
proof -
  have "map (\<lambda>(xi_item, ri_item). nd_zip (+) xi_item (nd_scale c ri_item)) (zip xi ri)
          = map (\<lambda>(x, y). nd_zip (+) x y) (zip xi (map (nd_scale c) ri))"
    by (simp add: zip_map2 case_prod_unfold)
  then show ?thesis using assms by (simp add: same_shape_zip same_shape_scale)
qed

text \<open>With ten classes or more, every class of the scan has a gradient and a score.\<close>

lemma scan_ok:
  assumes "\<forall>k\<in>set ks. k < num_classes m" "grad_shaped m x0" "same_shape xi x0"
    "same_shape g x0" "same_shape (fst s) x0"
  shows "\<exists>w f. scan_classes m xi l g None ks s = Inr (w, f) \<and> same_shape w x0"
  using assms
proof (induction ks arbitrary: s)
  case Nil
  then show ?case by (cases s) simp
next
  case (Cons k ks)
  show ?case
  proof (cases "k = l")
    case True
    with Cons show ?thesis by simp
  next
    case False
    let ?s' = "(map (\<lambda>(a, b). nd_zip (-) a b) (zip (gradient m xi k) g),
            predict m xi ! k - predict m xi ! l)"
    from Cons.prems have k: "k < num_classes m" by simp
    with Cons.prems have "same_shape (gradient m xi k) x0" by (simp add: grad_shaped_def)
    with Cons.prems have "same_shape (fst ?s') x0" by (simp add: same_shape_zip)
    with Cons.IH[of ?s'] Cons.prems
    have "\<exists>w f. scan_classes m xi l g None ks ?s' = Inr (w, f) \<and> same_shape w x0" by simp
    with False k show ?thesis by (simp add: visit_ok)
  qed
qed

lemma iteration_ok:
  assumes "10 \<le> num_classes m" "l < num_classes m" "grad_shaped m x0" "same_shape xi x0"
  shows "\<exists>ri xi_new. iteration m x0 l eta xi = Inr (ri, xi_new) \<and> same_shape ri x0
            \<and> same_shape xi_new x0"
proof -
  from assms have g: "same_shape (gradient m xi l) x0" by (simp add: grad_shaped_def)
  have "\<forall>k\<in>set [0..<10]. k < num_classes m" using assms(1) by auto
  from scan_ok[OF this assms(3) assms(4) g, of "(map zeros_like x0, 0)" l]
  obtain w f where sc: "class_scan m x0 xi l (gradient m xi l) = Inr (w, f)"
    and w: "same_shape w x0"
    by (auto simp: class_scan_def same_shape_zeros)
  have ri: "same_shape (map (nd_scale (step_scale f w)) w) x0"
    using w by (rule same_shape_scale)
  show ?thesis
    using assms(2) sc ri same_shape_step[OF assms(4) ri]
    by (simp add: iteration_def get_gradient_def Let_def)
qed

lemma has_first_shape:
  assumes "zeros_like a = zeros_like b" "has_first b"
  shows "\<exists>y. index0 a = Inr y"
proof -
  from assms(2) obtain y ys where "b = Array (y # ys)"
    by (cases b rule: has_first.cases) auto
  with assms(1) obtain z zs where "a = Array (z # zs)" by (cases a) auto
  then show ?thesis by simp
qed

lemma accumulate_ok:
  assumes "i < length x0" "has_first (x0 ! i)" "\<forall>r_i\<in>set r. same_shape r_i x0"
  shows "\<exists>a. accumulate i acc r = Inr a"
  using assms(3)
proof (induction r arbitrary: acc)
  case Nil
  then show ?case by simp
next
  case (Cons r_i rs)
  then have sh: "map zeros_like r_i = map zeros_like x0" by (simp add: same_shape_def)
  then have len: "length r_i = length x0" by (rule map_eq_imp_length_eq)
  with sh assms(1) have "zeros_like (r_i ! i) = zeros_like (x0 ! i)" by (metis nth_map)
  from has_first_shape[OF this assms(2)] obtain y where "index0 (r_i ! i) = Inr y" ..
  with Cons len assms(1) show ?case by simp
qed

lemma sum_fields_ok:
  assumes "\<forall>i\<in>set is. i < length x0 \<and> has_first (x0 ! i)" "\<forall>r_i\<in>set r. same_shape r_i x0"
  shows "\<exists>s'. sum_fields r is s = Inr s'"
  using assms(1)
proof (induction "is" arbitrary: s)
  case Nil
  then show ?case by simp
next
  case (Cons i "is")
  then have "i < length x0" "has_first (x0 ! i)" by simp_all
  from accumulate_ok[OF this assms(2)] obtain a where "accumulate i (s ! i) r = Inr a" ..
  with Cons show ?case by simp
qed

lemma sum_perturbations_ok:
  assumes "list_all has_first x0" "\<forall>r_i\<in>set r. same_shape r_i x0"
  shows "\<exists>r_sum. sum_perturbations x0 r = Inr r_sum"
proof -
  have "\<forall>i\<in>set [0..<length x0]. i < length x0 \<and> has_first (x0 ! i)"
    using assms(1) by (simp add: list_all_length)
  from sum_fields_ok[OF this assms(2)] show ?thesis by (simp add: sum_perturbations_def)
qed

text \<open>The loop returns on every model of ten classes or more with a shaped gradient.\<close>

lemma main_loop_returns:
  assumes "10 \<le> num_classes m" "l < num_classes m" "grad_shaped m x0" "argsort_ok argsort"
  shows "n = nat (max_iter - i) \<Longrightarrow> same_shape xi x0 \<Longrightarrow> \<forall>r_i\<in>set r. same_shape r_i x0 \<Longrightarrow>
     \<exists>k l' r'. main_loop argsort m x0 l eta max_iter i xi lab r = Inr (k, l', r')
          \<and> (\<forall>r_i\<in>set r'. same_shape r_i x0)"
proof (induction n arbitrary: i xi lab r)
  case 0
  then have "\<not> (lab = l \<and> i < max_iter)" by simp
  with 0 show ?case by (simp add: main_loop_exit)
next
  case (Suc n)
  show ?case
  proof (cases "lab = l \<and> i < max_iter")
    case False
    with Suc.prems show ?thesis by (simp add: main_loop_exit)
  next
    case True
    from iteration_ok[OF assms(1) assms(2) assms(3) Suc.prems(2), of eta]
    obtain ri xi_new where it: "iteration m x0 l eta xi = Inr (ri, xi_new)"
      and ri: "same_shape ri x0" and xn: "same_shape xi_new x0" by blast
    from assms(1) have "0 < num_classes m" by simp
    from top_label_ok[OF assms(4) this, of xi_new] obtain label_new where
      tl: "top_label argsort (predict m xi_new) = Inr label_new" by blast
    have r: "\<forall>r_i\<in>set (r @ [ri]). same_shape r_i x0" using Suc.prems(3) ri by simp
    have "n = nat (max_iter - (i + 1))" using Suc.prems(1) by simp
    from Suc.IH[OF this xn r, of label_new]
    show ?thesis by (simp add: main_loop_step[OF True] it tl)
  qed
qed

lemma deepfool_returns:
  assumes "argsort_ok argsort" "10 \<le> num_classes m" "grad_shaped m x0" "list_all has_first x0"
  shows "\<exists>r_sum n l. deepfool argsort m x0 eta max_iter = Inr (r_sum, n, l)"
proof -
  from assms(2) have "0 < num_classes m" by simp
  from top_label_ok[OF assms(1) this, of x0] obtain l0 where
    l0: "top_label argsort (predict m x0) = Inr l0" "l0 < num_classes m" by blast
  from main_loop_returns[OF assms(2) l0(2) assms(3) assms(1) refl same_shape_refl,
      of "[]" eta max_iter 0 l0]
  obtain k l' r' where ml: "main_loop argsort m x0 l0 eta max_iter 0 x0 l0 [] = Inr (k, l', r')"
    and sh: "\<forall>r_i\<in>set r'. same_shape r_i x0" by auto
  from sum_perturbations_ok[OF assms(4) sh] obtain r_sum where
    "sum_perturbations x0 r' = Inr r_sum" ..
  with l0 ml show ?thesis by (simp add: deepfool_def)
qed

text \<open>
  C7. The loop is a total function: its measure \<open>max_iter - loop_i\<close> falls with every
  pass. For \<open>max_iter \<ge> 0\<close>, whenever the loop ends without an exception it has made
  \<open>loop_i\<close> passes, one recorded perturbation each, with \<open>0 \<le> loop_i \<le> max_iter\<close>, and
  that count is the one \<^verbatim>\<open>deepfool\<close> returns, whatever \<^verbatim>\<open>argsort\<close> does. With an
  \<^verbatim>\<open>argsort\<close> that sorts, on a model of ten classes or more whose gradient has the
  shape of the input, and an input whose fields can be indexed, \<^verbatim>\<open>deepfool\<close> does
  return.
\<close>

theorem iteration_budget:
  assumes "0 \<le> max_iter"
  shows "(\<forall>n l r. main_loop argsort m x0 label_x0 eta max_iter 0 x0 label_x0 [] = Inr (n, l, r)
            \<longrightarrow> 0 \<le> n \<and> n \<le> max_iter \<and> int (length r) = n)
       \<and> (\<forall>r_sum n l. deepfool argsort m x0 eta max_iter = Inr (r_sum, n, l)
            \<longrightarrow> 0 \<le> n \<and> n \<le> max_iter)
       \<and> (argsort_ok argsort \<and> 10 \<le> num_classes m \<and> grad_shaped m x0
              \<and> list_all has_first x0
            \<longrightarrow> (\<exists>r_sum n l. deepfool argsort m x0 eta max_iter = Inr (r_sum, n, l)))"
proof (intro conjI allI impI)
  fix n l r
  assume "main_loop argsort m x0 label_x0 eta max_iter 0 x0 label_x0 [] = Inr (n, l, r)"
  from main_loop_bounds[OF this assms]
  show "0 \<le> n" "n \<le> max_iter" "int (length r) = n" by simp_all
next
  fix r_sum n l
  assume d: "deepfool argsort m x0 eta max_iter = Inr (r_sum, n, l)"
  then obtain l0 r where "main_loop argsort m x0 l0 eta max_iter 0 x0 l0 [] = Inr (n, l, r)"
    by (auto simp: deepfool_def split: sum.splits)
  from main_loop_bounds[OF this assms]
  show "0 \<le> n" "n \<le> max_iter" by simp_all
next
  assume "argsort_ok argsort \<and> 10 \<le> num_classes m \<and> grad_shaped m x0
            \<and> list_all has_first x0"
  then show "\<exists>r_sum n l. deepfool argsort m x0 eta max_iter = Inr (r_sum, n, l)"
    by (simp add: deepfool_returns)
qed

lemma grad_shaped_linear: "grad_shaped linear x_ex"
  by (simp add: grad_shaped_def same_shape_def) (simp add: field_up_def field_lo_def)

theorem iteration_budget_witness:
  "(0 :: int) \<le> 20 \<and> argsort_ok insertion_argsort \<and> 10 \<le> num_classes linear
     \<and> grad_shaped linear x_ex \<and> list_all has_first x_ex
     \<and> deepfool insertion_argsort linear x_ex (1 / 100) 20 = Inr ([field_lo], 1, 9)
     \<and> (0 :: int) \<le> 1 \<and> (1 :: int) \<le> 20"
proof -
  have b: "(0 :: int) \<le> 20" by simp
  have w: "argsort_ok insertion_argsort \<and> 10 \<le> num_classes linear \<and> grad_shaped linear x_ex
             \<and> list_all has_first x_ex"
    by (simp add: insertion_argsort_ok grad_shaped_linear has_first_x_ex)
  from iteration_budget[OF b, of insertion_argsort linear x_ex 0 "1 / 100"] w
  obtain r_sum n l where
    d: "deepfool insertion_argsort linear x_ex (1 / 100) 20 = Inr (r_sum, n, l)"
    and n: "0 \<le> n" "n \<le> 20"
    by blast
  moreover have "deepfool insertion_argsort linear x_ex (1 / 100) 20 = Inr ([field_lo], 1, 9)"
    using insertion_argsort_ok by (rule deepfool_linear)
  ultimately have "deepfool insertion_argsort linear x_ex (1 / 100) 20 = Inr ([field_lo], 1, 9)
     \<and> (0 :: int) \<le> 1 \<and> (1 :: int) \<le> 20" by simp
  with b w show ?thesis by simp
qed

section \<open>Non-convergence\<close>

lemma main_loop_runs:
  assumes "10 \<le> num_classes m" "l < num_classes m" "grad_shaped m x0"
    and "\<forall>j. j \<le> nat max_iter \<longrightarrow> (\<forall>x. candidate m x0 l eta j = Inr x \<longrightarrow> 0 < j \<longrightarrow>
            top_label argsort (predict m x) = Inr l)"
  shows "n = nat (max_iter - i) \<Longrightarrow> 0 \<le> i \<Longrightarrow> i \<le> max_iter \<Longrightarrow>
     candidate m x0 l eta (nat i) = Inr xi \<Longrightarrow> same_shape xi x0 \<Longrightarrow>
     \<forall>r_i\<in>set r. same_shape r_i x0 \<Longrightarrow>
     \<exists>r'. main_loop argsort m x0 l eta max_iter i xi l r = Inr (max_iter, l, r')
          \<and> (\<forall>r_i\<in>set r'. same_shape r_i x0)"
proof (induction n arbitrary: i xi r)
  case 0
  then have "i = max_iter" by simp
  with 0 show ?case by (simp add: main_loop_exit)
next
  case (Suc n)
  then have lt: "l = l \<and> i < max_iter" by simp
  from iteration_ok[OF assms(1) assms(2) assms(3) Suc.prems(5), of eta]
  obtain ri xi_new where it: "iteration m x0 l eta xi = Inr (ri, xi_new)"
    and ri: "same_shape ri x0" and xn: "same_shape xi_new x0" by blast
  have nat_eq: "nat (i + 1) = Suc (nat i)" using Suc.prems(2) by simp
  have cand: "candidate m x0 l eta (nat (i + 1)) = Inr xi_new"
    using Suc.prems(4) it by (simp add: nat_eq)
  have "nat (i + 1) \<le> nat max_iter" using lt Suc.prems(2) by simp
  with assms(4) cand have tl: "top_label argsort (predict m xi_new) = Inr l" by (simp add: nat_eq)
  have r: "\<forall>r_i\<in>set (r @ [ri]). same_shape r_i x0" using Suc.prems(6) ri by simp
  have "n = nat (max_iter - (i + 1))" using Suc.prems(1) by simp
  from Suc.IH[OF this _ _ cand xn r] lt Suc.prems(2)
  obtain r' where
    "main_loop argsort m x0 l eta max_iter (i + 1) xi_new l (r @ [ri]) = Inr (max_iter, l, r')"
    and "\<forall>r_i\<in>set r'. same_shape r_i x0" by auto
  then show ?case by (simp add: main_loop_step[OF lt] it tl)
qed

text \<open>
  What holds of a run whose label never changes. Take an \<^verbatim>\<open>argsort\<close> that sorts, a
  model of ten classes or more whose gradient has the shape of the input, an input whose
  fields can be indexed, and \<open>max_iter \<ge> 0\<close>. If the label of each of the first
  \<open>max_iter\<close> candidates is \<open>label_x0\<close>, the loop makes \<open>max_iter\<close> passes and
  \<^verbatim>\<open>deepfool\<close> returns, with no exception, what lines 199 to 202 compute from the
  \<open>max_iter\<close> recorded perturbations, the count \<open>max_iter\<close> and the label \<open>label_x0\<close>.
\<close>

theorem non_convergence_returns:
  assumes "0 \<le> max_iter" and "10 \<le> num_classes m" and "grad_shaped m x0"
    and "list_all has_first x0" and "argsort_ok argsort"
    and "top_label argsort (predict m x0) = Inr label_x0"
    and "\<forall>j\<in>{1..nat max_iter}. \<forall>xi. candidate m x0 label_x0 eta j = Inr xi \<longrightarrow>
            top_label argsort (predict m xi) = Inr label_x0"
  shows "\<exists>r r_sum.
           main_loop argsort m x0 label_x0 eta max_iter 0 x0 label_x0 []
             = Inr (max_iter, label_x0, r)
           \<and> int (length r) = max_iter
           \<and> sum_perturbations x0 r = Inr r_sum
           \<and> deepfool argsort m x0 eta max_iter = Inr (r_sum, max_iter, label_x0)"
proof -
  from assms(2) have "0 < num_classes m" by simp
  from top_label_ok[OF assms(5) this, of x0] assms(6) have l: "label_x0 < num_classes m"
    by simp
  have stay: "\<forall>j. j \<le> nat max_iter \<longrightarrow> (\<forall>x. candidate m x0 label_x0 eta j = Inr x \<longrightarrow> 0 < j
            \<longrightarrow> top_label argsort (predict m x) = Inr label_x0)"
    using assms(7) by auto
  from main_loop_runs[OF assms(2) l assms(3) stay, of "nat max_iter" 0 x0 "[]"] assms(1)
  obtain r where
    ml: "main_loop argsort m x0 label_x0 eta max_iter 0 x0 label_x0 []
           = Inr (max_iter, label_x0, r)"
    and sh: "\<forall>r_i\<in>set r. same_shape r_i x0"
    by (auto simp: same_shape_refl)
  from main_loop_bounds[OF ml] assms(1) have len: "int (length r) = max_iter" by simp
  from sum_perturbations_ok[OF assms(4) sh] obtain r_sum where
    sp: "sum_perturbations x0 r = Inr r_sum" ..
  show ?thesis using ml len sp assms(6) by (simp add: deepfool_def)
qed

text \<open>
  C8 fails on the code, by the defect of C2: in \<^verbatim>\<open>r_sum[i] += r_i[i][0]\<close> the index
  \<^verbatim>\<open>[0]\<close> takes the first row of the field. On \<open>toy 10\<close> with \<open>max_iter = 2\<close> the label
  never changes and the loop records \<open>r_toy\<close> twice; \<^verbatim>\<open>deepfool\<close> returns the count 2 and
  the label 0 as the claim says, but its perturbation has \<open>6000 / 25001\<close> in both rows,
  where the accumulated perturbation has \<open>6000 / 25001\<close> and \<open>8000 / 25001\<close>. On
  \<open>toy_flat\<close>, whose input of shape \<open>(1,)\<close> has a number as its one field, the label never
  changes in the one pass allowed either, and \<^verbatim>\<open>[0]\<close> raises \<^verbatim>\<open>IndexError\<close> after the
  loop: the call does not return.
\<close>

theorem non_convergence_aggregate:
  assumes "argsort_ok argsort"
  shows "main_loop argsort (toy 10) x_ex 0 0 2 0 x_ex 0 [] = Inr (2, 0, [r_toy, r_toy]) \<and>
   deepfool argsort (toy 10) x_ex 0 2
     = Inr ([Array [Array [Scalar (6000 / 25001)], Array [Scalar (6000 / 25001)]]], 2, 0) \<and>
   fieldwise_sum_spec x_ex [r_toy, r_toy]
     = [Array [Array [Scalar (6000 / 25001)], Array [Scalar (8000 / 25001)]]] \<and>
   main_loop argsort toy_flat x_flat 0 0 1 0 x_flat 0 [] = Inr (1, 0, [r_flat]) \<and>
   deepfool argsort toy_flat x_flat 0 1 = Inl IndexError"
  by (simp add: main_loop_toy_2[OF assms] deepfool_toy_2[OF assms] fieldwise_sum_toy_2
        main_loop_toy_flat[OF assms] deepfool_toy_flat[OF assms])

theorem non_convergence_aggregate_witness:
  "argsort_ok insertion_argsort \<and>
   deepfool insertion_argsort (toy 10) x_ex 0 2
     = Inr ([Array [Array [Scalar (6000 / 25001)], Array [Scalar (6000 / 25001)]]], 2, 0) \<and>
   deepfool insertion_argsort toy_flat x_flat 0 1 = Inl IndexError"
  using non_convergence_aggregate[OF insertion_argsort_ok] insertion_argsort_ok by simp

section \<open>What the scan returns\<close>

lemma visit_all_last:
  assumes "ks \<noteq> []" "\<forall>k\<in>set ks. k < num_classes m"
  shows "visit_all m xi l g None ks s =
           Inr (map (\<lambda>(a, b). nd_zip (-) a b) (zip (gradient m xi (last ks)) g),
                predict m xi ! last ks - predict m xi ! l)"
  using assms
proof (induction ks arbitrary: s)
  case Nil
  then show ?case by simp
next
  case (Cons k ks)
  then show ?case by (cases "ks = []") (simp_all add: visit_ok)
qed

text \<open>
  On a model of ten classes or more the scan returns the gradient difference and the score
  difference of the last class it visits, class 9, or class 8 when the top class is 9,
  whatever the distances are.
\<close>

theorem class_scan_last_wins:
  assumes "10 \<le> num_classes m"
  shows "class_scan m x0 xi label_x0 g =
           Inr (map (\<lambda>(a, b). nd_zip (-) a b)
                  (zip (gradient m xi (if label_x0 = 9 then 8 else 9)) g),
                predict m xi ! (if label_x0 = 9 then 8 else 9) - predict m xi ! label_x0)"
proof -
  have ne: "removeAll label_x0 [0..<10] \<noteq> []" by (simp add: upt_10)
  have la: "last (removeAll label_x0 [0..<10]) = (if label_x0 = 9 then 8 else 9)"
    by (simp add: upt_10)
  have "\<forall>k\<in>set (removeAll label_x0 [0..<10]). k < num_classes m" using assms by auto
  from visit_all_last[OF ne this] la show ?thesis
    by (simp add: class_scan_def scan_classes_removeAll)
qed

theorem class_scan_last_wins_witness:
  "10 \<le> num_classes linear \<and> class_scan linear x_ex x_ex 0 [field_lo] = Inr ([field_up], - 1)"
proof -
  have n: "10 \<le> num_classes linear" by simp
  from class_scan_last_wins[OF n, of x_ex x_ex 0 "[field_lo]"]
  have "class_scan linear x_ex x_ex 0 [field_lo] = Inr ([field_up], - 1)"
    by (simp add: predict_linear) (simp add: x_ex_def)
  with n show ?thesis by simp
qed

section \<open>Saving and loading data: the round trip\<close>

lemma try_save_ok:
  assumes "try_save pk fs data path = (fs', Inr u)"
  shows "\<exists>b. pickle_dump pk data = Inr b \<and> files fs' path = Some b
           \<and> readable fs' = readable fs"
  using assms
  by (auto simp: try_save_def open_wb_def split: if_splits sum.splits)

lemma save_pkl_ok:
  assumes "save_pkl pk fs data path = Inr (fs', [])"
  shows "\<exists>b. pickle_dump pk data = Inr b \<and> files fs' path = Some b"
proof -
  from assms obtain u where "try_save pk fs data path = (fs', Inr u)"
    by (auto simp: save_pkl_def split: prod.splits sum.splits)
  from try_save_ok[OF this] show ?thesis by blast
qed

lemma load_pkl_ok:
  assumes "load_pkl pk fs path = Inr (v, [])"
  shows "\<exists>b. files fs path = Some b \<and> pickle_load pk b = Inr v"
  using assms
  by (auto simp: load_pkl_def try_load_def open_rb_def
           split: sum.splits option.splits if_splits)

text \<open>
  C10. \<^verbatim>\<open>pickle\<close> and the file system are oracles that may raise, and a call succeeds
  when it prints nothing. For a serializable object, if \<^verbatim>\<open>save_pkl(data, path)\<close>
  succeeds and \<^verbatim>\<open>load_pkl(path)\<close> on the file system it leaves succeeds, the object
  loaded is \<open>data\<close>: the two functions use the same path, and what the one wrote is what
  the other reads. Both succeed where the path may be written and read and \<^verbatim>\<open>pickle\<close>
  dumps the object and loads it back. \<^verbatim>\<open>load_pkl\<close> never raises: whenever the body of
  its \<^verbatim>\<open>try\<close> raises, it prints and returns \<^verbatim>\<open>None\<close>.
\<close>

theorem persistence_round_trip:
  assumes "serializable pk data"
  shows "(\<forall>fs' v. save_pkl pk fs data path = Inr (fs', []) \<longrightarrow>
            load_pkl pk fs' path = Inr (v, []) \<longrightarrow> v = data)
       \<and> (\<forall>b. writable fs path \<longrightarrow> readable fs path \<longrightarrow> pickle_dump pk data = Inr b \<longrightarrow>
            pickle_load pk b = Inr data \<longrightarrow>
            (\<exists>fs'. save_pkl pk fs data path = Inr (fs', [])
                 \<and> load_pkl pk fs' path = Inr (data, [])))
       \<and> (\<forall>fs0 p. \<exists>v out. load_pkl pk fs0 p = Inr (v, out))
       \<and> (\<forall>fs0 p e. try_load pk fs0 p = Inl e \<longrightarrow>
            load_pkl pk fs0 p = Inr (PyNone, [''Fail to load data'']))"
proof (intro conjI allI impI)
  fix fs' v
  assume s: "save_pkl pk fs data path = Inr (fs', [])"
    and l: "load_pkl pk fs' path = Inr (v, [])"
  from save_pkl_ok[OF s] obtain b where
    b: "pickle_dump pk data = Inr b" "files fs' path = Some b" by blast
  from load_pkl_ok[OF l] b(2) have "pickle_load pk b = Inr v" by auto
  with assms b(1) show "v = data" by (simp add: serializable_def)
next
  fix b
  assume "writable fs path" "readable fs path" "pickle_dump pk data = Inr b"
    "pickle_load pk b = Inr data"
  then show "\<exists>fs'. save_pkl pk fs data path = Inr (fs', [])
                 \<and> load_pkl pk fs' path = Inr (data, [])"
    by (simp add: save_pkl_def try_save_def open_wb_def load_pkl_def try_load_def open_rb_def)
next
  fix fs0 :: filesystem and p
  show "\<exists>v out. load_pkl pk fs0 p = Inr (v, out)"
    by (simp add: load_pkl_def split: sum.splits)
next
  fix fs0 :: filesystem and p e
  assume "try_load pk fs0 p = Inl e"
  then show "load_pkl pk fs0 p = Inr (PyNone, [''Fail to load data''])"
    by (simp add: load_pkl_def)
qed

lemma serializable_text: "serializable text_pickle (PyObj ''0.25'')"
  by (simp add: serializable_def text_pickle_def)

theorem persistence_round_trip_witness:
  "serializable text_pickle (PyObj ''0.25'') \<and>
   save_pkl text_pickle empty_fs (PyObj ''0.25'') ''fold1.pkl'' = Inr (saved_fs, []) \<and>
   load_pkl text_pickle saved_fs ''fold1.pkl'' = Inr (PyObj ''0.25'', []) \<and>
   load_pkl text_pickle empty_fs ''fold1.pkl'' = Inr (PyNone, [''Fail to load data''])"
proof -
  have s: "save_pkl text_pickle empty_fs (PyObj ''0.25'') ''fold1.pkl'' = Inr (saved_fs, [])"
    by (simp add: save_pkl_def try_save_def open_wb_def text_pickle_def empty_fs_def
          saved_fs_def)
  have l: "load_pkl text_pickle saved_fs ''fold1.pkl'' = Inr (PyObj ''0.25'', [])"
    by (simp add: load_pkl_def try_load_def open_rb_def text_pickle_def saved_fs_def)
  have t: "try_load text_pickle empty_fs ''fold1.pkl'' = Inl OSError"
    by (simp add: try_load_def open_rb_def empty_fs_def)
  from persistence_round_trip[OF serializable_text, of empty_fs "''fold1.pkl''"] s l t
  have "load_pkl text_pickle empty_fs ''fold1.pkl'' = Inr (PyNone, [''Fail to load data''])"
    by blast
  with serializable_text s l show ?thesis by simp
qed

end
